theory Spec2Isabelle
  imports Main "HOL-Library.Word"
begin

section \<open>The object store and the shared frame slot\<close>

text \<open>
  The program is \<^verbatim>\<open>src/software/watchdog.py\<close>. Its frames are NumPy arrays, which are
  mutable objects: two names may refer to one array, and \<^verbatim>\<open>frame.copy()\<close> makes a
  new one. The model therefore keeps an explicit store of arrays. An address is the
  index of an array in the store and a fresh array is appended to it, so an address that
  has been handed out is never given to another array. (Python frees an array only once
  nothing refers to it; the model never frees.)

  An array is its shape and its bytes; the main stream of the camera is configured as
  RGB888, one byte per channel.
\<close>

type_synonym addr = nat

record ndarray =
  shape :: "nat list"
  data :: "8 word list"

text \<open>
  The module-level state: the store, the global \<^verbatim>\<open>output_frame\<close> (\<^verbatim>\<open>None\<close> or a
  reference to an array) and the global \<^verbatim>\<open>lock\<close> (\<open>True\<close> while some
  \<^verbatim>\<open>with lock:\<close> block holds it).
\<close>

record world =
  heap :: "ndarray list"
  output_frame :: "addr option"
  lock :: bool

text \<open>\<^verbatim>\<open>lock = threading.Lock()\<close>, \<^verbatim>\<open>output_frame = None\<close>.\<close>

definition initial_world :: world where
  "initial_world = \<lparr>heap = [], output_frame = None, lock = False\<rparr>"

definition alloc :: "world \<Rightarrow> ndarray \<Rightarrow> addr \<times> world" where
  "alloc w v = (length (heap w), w\<lparr>heap := heap w @ [v]\<rparr>)"

text \<open>
  \<^verbatim>\<open>a.copy()\<close>: a new array with the content of the array at \<open>a\<close>. A Python reference
  always points at a live object; the only call of the model passes an address that was
  allocated in the same iteration (lemma \<open>body_frame_allocated\<close> below).
\<close>

definition ndarray_copy :: "world \<Rightarrow> addr \<Rightarrow> addr \<times> world" where
  "ndarray_copy w a = alloc w (heap w ! a)"

section \<open>The frame query: \<^verbatim>\<open>generate_image\<close>\<close>

text \<open>
  \<^verbatim>\<open>gr.Image(value=output_frame, label="Camera")\<close> belongs to the web layer; the model
  keeps what the program passes to it: the reference to the array and the label.
\<close>

datatype gr_Image = Gr_Image (image_value: addr) (image_label: string)

text \<open>
  The function has no loop (the \<^verbatim>\<open>while (1)\<close> of the source is commented out). It
  can wait only to enter \<^verbatim>\<open>with lock:\<close>; taken alone, with nobody to release a held
  lock, that wait never ends, which is the result \<open>None\<close>. Otherwise it returns the
  image object (Python's \<^verbatim>\<open>None\<close> when \<^verbatim>\<open>output_frame\<close> is \<^verbatim>\<open>None\<close>) and the world
  with the lock released. The \<^verbatim>\<open>print\<close> calls of \<^verbatim>\<open>generate_image\<close> and
  \<^verbatim>\<open>video_processing\<close> are diagnostics on the console and are not modelled.
\<close>

definition generate_image :: "world \<Rightarrow> (gr_Image option \<times> world) option" where
  "generate_image w =
     (if lock w then None
      else
        let w1 = w\<lparr>lock := True\<rparr>;
            image_object =
              (case output_frame w1 of
                 None \<Rightarrow> None
               | Some a \<Rightarrow> Some (Gr_Image a ''Camera''))
        in Some (image_object, w1\<lparr>lock := False\<rparr>))"

text \<open>The bytes a caller finds behind an image object.\<close>

definition payload :: "world \<Rightarrow> gr_Image \<Rightarrow> ndarray" where
  "payload w img = heap w ! image_value img"

section \<open>The capture loop: \<^verbatim>\<open>video_processing\<close>\<close>

text \<open>
  Python exceptions: the loop's handler tells \<^verbatim>\<open>KeyboardInterrupt\<close> from everything
  else, so the model does too; \<open>Error\<close> carries the name of any other exception.
\<close>

datatype exn = KeyboardInterrupt | Error string

text \<open>
  The environment of one iteration of \<^verbatim>\<open>while (1)\<close>: what
  \<^verbatim>\<open>camera.capture_array()\<close> does (raises, or returns an array with this content), and
  whether a \<^verbatim>\<open>KeyboardInterrupt\<close> is delivered during the iteration and where: inside
  \<^verbatim>\<open>capture_array\<close>, inside \<^verbatim>\<open>background_subtract.apply\<close>, while waiting to enter
  \<^verbatim>\<open>with lock:\<close>, inside the block before the assignment, or inside the block after
  it.
\<close>

datatype point = At_capture | At_apply | At_acquire | At_copy | At_release

record tick =
  captured :: "exn + ndarray"
  interrupt :: "point option"

text \<open>
  The calls the thread makes on the camera and on OpenCV, in order. The six calls before
  the \<^verbatim>\<open>try\<close> are the setup.
\<close>

datatype setup_call =
  Picamera2 | Create_video_configuration | Align_configuration | Configure | Start
  | CreateBackgroundSubtractorMOG2

datatype call = Setup setup_call | Capture_array | Apply | Stop

definition setup_calls :: "setup_call list" where
  "setup_calls =
     [Picamera2, Create_video_configuration, Align_configuration, Configure, Start,
      CreateBackgroundSubtractorMOG2]"

text \<open>
  What the thread holds: the module-level state, the background subtractor (OpenCV's
  object with its learned background model, of an arbitrary type \<open>'b\<close>) and the log of
  its calls.
\<close>

record 'b thread =
  world :: world
  background_subtract :: 'b
  calls :: "call list"

text \<open>
  \<^verbatim>\<open>background_subtract.apply(frame)\<close> is OpenCV's: a parameter of the model. It reads
  the frame and the subtractor, and raises or returns the mask and the updated
  subtractor.
\<close>

type_synonym 'b transform = "'b \<Rightarrow> ndarray \<Rightarrow> exn + (ndarray \<times> 'b)"

text \<open>
  One iteration either reaches the end of the loop body, or waits for the lock for ever,
  or leaves the body with an exception.
\<close>

datatype 'b step =
  Continue (thread_of: "'b thread")
  | Stuck (thread_of: "'b thread")
  | Throw exn (thread_of: "'b thread")

text \<open>
  The last statement of the loop body, \<^verbatim>\<open>with lock: output_frame = frame.copy()\<close>,
  for the array at \<open>frame\<close>: enter the block (or wait for ever when the lock is held),
  copy, assign, leave. Leaving \<^verbatim>\<open>with lock:\<close> releases the lock, also on an
  exception. \<open>sig\<close> is the tick's interrupt.
\<close>

definition publish :: "point option \<Rightarrow> 'b thread \<Rightarrow> addr \<Rightarrow> 'b step" where
  "publish sig st frame =
     (if sig = Some At_acquire then Throw KeyboardInterrupt st
      else if lock (world st) then Stuck st
      else
        let w1 = (world st)\<lparr>lock := True\<rparr> in
        if sig = Some At_copy
        then Throw KeyboardInterrupt (st\<lparr>world := w1\<lparr>lock := False\<rparr>\<rparr>)
        else
          let (c, w2) = ndarray_copy w1 frame;
              w3 = w2\<lparr>output_frame := Some c\<rparr> in
          if sig = Some At_release
          then Throw KeyboardInterrupt (st\<lparr>world := w3\<lparr>lock := False\<rparr>\<rparr>)
          else Continue (st\<lparr>world := w3\<lparr>lock := False\<rparr>\<rparr>))"

text \<open>
  The loop body, statement by statement:
  \<^verbatim>\<open>frame = camera.capture_array()\<close>,
  \<^verbatim>\<open>mask = background_subtract.apply(frame)\<close>, and the \<^verbatim>\<open>with lock:\<close> block.
  The arrays \<open>frame\<close> and \<open>mask\<close> are new objects in the store; \<open>mask\<close> is bound and
  not used again.
\<close>

definition body :: "'b transform \<Rightarrow> 'b thread \<Rightarrow> tick \<Rightarrow> 'b step" where
  "body tr st t =
     (let st1 = st\<lparr>calls := calls st @ [Capture_array]\<rparr> in
      if interrupt t = Some At_capture then Throw KeyboardInterrupt st1
      else
        (case captured t of
           Inl e \<Rightarrow> Throw e st1
         | Inr f \<Rightarrow>
             let (frame, w1) = alloc (world st1) f;
                 st2 = st1\<lparr>world := w1, calls := calls st1 @ [Apply]\<rparr> in
             if interrupt t = Some At_apply then Throw KeyboardInterrupt st2
             else
               (case tr (background_subtract st2) (heap w1 ! frame) of
                  Inl e \<Rightarrow> Throw e st2
                | Inr (m, bg') \<Rightarrow>
                    let (mask, w2) = alloc w1 m;
                        st3 = st2\<lparr>world := w2, background_subtract := bg'\<rparr>
                    in publish (interrupt t) st3 frame)))"

text \<open>
  \<^verbatim>\<open>while (1)\<close> never ends by itself. The model runs it on the list of the iterations
  the environment has provided so far: when the list is used up the thread is still
  \<open>Running\<close> (about to capture again); otherwise it is \<open>Blocked\<close> on the lock, or the
  loop was left by an exception.
\<close>

datatype status = Running | Blocked | Raised exn

fun capture_loop :: "'b transform \<Rightarrow> 'b thread \<Rightarrow> tick list \<Rightarrow> status \<times> 'b thread" where
  "capture_loop tr st [] = (Running, st)"
| "capture_loop tr st (t # ts) =
     (case body tr st t of
        Continue st' \<Rightarrow> capture_loop tr st' ts
      | Stuck st' \<Rightarrow> (Blocked, st')
      | Throw e st' \<Rightarrow> (Raised e, st'))"

text \<open>
  The whole thread function. \<open>setup\<close> says whether one of the six calls before the
  \<^verbatim>\<open>try\<close> raises, and which; they are outside the \<^verbatim>\<open>try\<close>, so the exception leaves
  the function as it is. \<open>bg0\<close> is the subtractor that
  \<^verbatim>\<open>cv.createBackgroundSubtractorMOG2()\<close> returns. The handler
  \<^verbatim>\<open>except KeyboardInterrupt\<close> calls \<^verbatim>\<open>camera.stop()\<close> and raises
  \<^verbatim>\<open>KeyboardInterrupt\<close> again; any other exception passes through it untouched.
  \<open>after_setup\<close> is the thread when the six calls have returned.
\<close>

definition after_setup :: "world \<Rightarrow> 'b \<Rightarrow> 'b thread" where
  "after_setup w bg0 = \<lparr>world = w, background_subtract = bg0, calls = map Setup setup_calls\<rparr>"

definition video_processing ::
  "'b transform \<Rightarrow> 'b \<Rightarrow> (setup_call \<times> exn) option \<Rightarrow> world \<Rightarrow> tick list \<Rightarrow> status \<times> 'b thread"
where
  "video_processing tr bg0 setup w ticks =
     (case setup of
        Some (k, e) \<Rightarrow>
          (Raised e,
           \<lparr>world = w, background_subtract = bg0,
            calls = map Setup (takeWhile (\<lambda>c. c \<noteq> k) setup_calls @ [k])\<rparr>)
      | None \<Rightarrow>
          let (s, st) = capture_loop tr (after_setup w bg0) ticks
          in if s = Raised KeyboardInterrupt
             then (Raised KeyboardInterrupt, st\<lparr>calls := calls st @ [Stop]\<rparr>)
             else (s, st))"

section \<open>The start-up code: \<^verbatim>\<open>__main__\<close>\<close>

text \<open>\<^verbatim>\<open>Thread.is_alive()\<close>: the thread function has not ended.\<close>

fun is_alive :: "status \<Rightarrow> bool" where
  "is_alive Running = True"
| "is_alive Blocked = True"
| "is_alive (Raised e) = False"

text \<open>
  What the main block does, in order: start the thread, sleep one second, then either
  print and launch the web interface on the given server name, or print the failure.
  \<open>setup\<close> and \<open>ticks\<close> are what the thread has met by the time \<^verbatim>\<open>is_alive()\<close> is
  evaluated.
\<close>

datatype action = Thread_start | Sleep nat | Print string | Launch string

definition main ::
  "'b transform \<Rightarrow> 'b \<Rightarrow> (setup_call \<times> exn) option \<Rightarrow> tick list \<Rightarrow> action list"
where
  "main tr bg0 setup ticks =
     (let video_thread = video_processing tr bg0 setup initial_world ticks in
      [Thread_start, Sleep 1] @
      (if is_alive (fst video_thread)
       then [Print ''Starting web API (may take a while).'', Launch ''0.0.0.0'']
       else [Print ''Unable to do video processing!'']))"

text \<open>
  The main block runs \<^verbatim>\<open>video_processing\<close> as the target of a
  \<^verbatim>\<open>threading.Thread\<close> (a daemon), not in the main thread. Python runs signal
  handlers in the main thread only, so the \<^verbatim>\<open>KeyboardInterrupt\<close> of an interrupt
  signal is raised there. A tick as the loop meets it in that thread: no interrupt is
  delivered in the iteration and \<^verbatim>\<open>capture_array()\<close> does not raise
  \<^verbatim>\<open>KeyboardInterrupt\<close>.
\<close>

definition in_thread :: "tick \<Rightarrow> bool" where
  "in_thread t = (interrupt t = None \<and> captured t \<noteq> Inl KeyboardInterrupt)"

section \<open>Sequences of iterations and queries\<close>

text \<open>
  The two activities share \<open>world\<close> only. A sequence of whole iterations of the loop
  and whole calls of \<^verbatim>\<open>generate_image\<close>, in any order: an iteration runs only while
  the thread is \<open>Running\<close>, and a query leaves the world as \<^verbatim>\<open>generate_image\<close> leaves
  it.
\<close>

datatype op = Iterate tick | Query

fun system_step :: "'b transform \<Rightarrow> status \<times> 'b thread \<Rightarrow> op \<Rightarrow> status \<times> 'b thread" where
  "system_step tr (Running, st) (Iterate t) = capture_loop tr st [t]"
| "system_step tr (s, st) (Iterate t) = (s, st)"
| "system_step tr (s, st) Query =
     (case generate_image (world st) of
        None \<Rightarrow> (s, st)
      | Some (r, w') \<Rightarrow> (s, st\<lparr>world := w'\<rparr>))"

definition run_ops :: "'b transform \<Rightarrow> status \<times> 'b thread \<Rightarrow> op list \<Rightarrow> status \<times> 'b thread" where
  "run_ops tr = foldl (system_step tr)"

text \<open>
  A reference in \<^verbatim>\<open>output_frame\<close> points at an array of the store. This holds
  initially and after every iteration and query (\<open>run_ops_slot_allocated\<close> below).
\<close>

definition slot_allocated :: "world \<Rightarrow> bool" where
  "slot_allocated w = (case output_frame w of None \<Rightarrow> True | Some a \<Rightarrow> a < length (heap w))"

section \<open>Example inputs\<close>

text \<open>
  Two frames of one pixel row, a transform that answers with an all-zero mask and counts
  the frames it has seen (and fails on an array without data), and the tick of an
  undisturbed iteration.
\<close>

definition frame_A :: ndarray where
  "frame_A = \<lparr>shape = [1, 2, 3], data = [1, 2, 3, 4, 5, 6]\<rparr>"

definition frame_B :: ndarray where
  "frame_B = \<lparr>shape = [1, 2, 3], data = [9, 8, 7, 6, 5, 4]\<rparr>"

definition mask_0 :: ndarray where
  "mask_0 = \<lparr>shape = [1, 2, 3], data = [0, 0, 0, 0, 0, 0]\<rparr>"

definition example_transform :: "nat transform" where
  "example_transform bg f =
     (if data f = [] then Inl (Error ''cv2.error'')
      else Inr (f\<lparr>data := map (\<lambda>b. 0) (data f)\<rparr>, Suc bg))"

definition frame_tick :: "ndarray \<Rightarrow> tick" where
  "frame_tick f = \<lparr>captured = Inr f, interrupt = None\<rparr>"

text \<open>The world and the thread after one undisturbed iteration on \<open>frame_A\<close>.\<close>

definition world_A :: world where
  "world_A = \<lparr>heap = [frame_A, mask_0, frame_A], output_frame = Some 2, lock = False\<rparr>"

definition thread_A :: "nat thread" where
  "thread_A =
     \<lparr>world = world_A, background_subtract = 1,
      calls = map Setup setup_calls @ [Capture_array, Apply]\<rparr>"

text \<open>The thread after undisturbed iterations on \<open>frame_A\<close> and then \<open>frame_B\<close>.\<close>

definition thread_AB :: "nat thread" where
  "thread_AB =
     \<lparr>world =
        \<lparr>heap = [frame_A, mask_0, frame_A, frame_B, mask_0, frame_B], output_frame = Some 5,
         lock = False\<rparr>,
      background_subtract = 2,
      calls = map Setup setup_calls @ [Capture_array, Apply, Capture_array, Apply]\<rparr>"

text \<open>
  The thread after an undisturbed iteration on \<open>frame_A\<close> and an iteration on
  \<open>frame_B\<close> that is interrupted inside \<^verbatim>\<open>with lock:\<close> before the assignment.
\<close>

definition interrupted_thread :: "nat thread" where
  "interrupted_thread =
     \<lparr>world =
        \<lparr>heap = [frame_A, mask_0, frame_A, frame_B, mask_0], output_frame = Some 2,
         lock = False\<rparr>,
      background_subtract = 2,
      calls = map Setup setup_calls @ [Capture_array, Apply, Capture_array, Apply]\<rparr>"

section \<open>Facts about the query\<close>

lemma generate_image_unlocked:
  "\<not> lock w \<Longrightarrow>
   generate_image w = Some (map_option (\<lambda>a. Gr_Image a ''Camera'') (output_frame w), w)"
  by (cases "output_frame w") (simp_all add: generate_image_def Let_def)

section \<open>Facts about one iteration\<close>

lemmas body_defs = body_def publish_def alloc_def ndarray_copy_def Let_def

lemmas example_defs = frame_A_def frame_B_def mask_0_def example_transform_def frame_tick_def
  after_setup_def initial_world_def setup_calls_def

text \<open>The address given to \<^verbatim>\<open>frame.copy()\<close> is the one just allocated.\<close>

lemma body_frame_allocated:
  "fst (alloc w f) < length (heap (snd (alloc w f))) \<and>
   heap (snd (alloc w f)) ! fst (alloc w f) = f"
  by (simp add: alloc_def)

text \<open>An undisturbed iteration, in closed form.\<close>

lemma body_success:
  assumes "captured t = Inr f" and "interrupt t = None"
    and "tr (background_subtract st) f = Inr (m, bg')" and "\<not> lock (world st)"
  shows "body tr st t =
     Continue (st\<lparr>world := (world st)\<lparr>heap := heap (world st) @ [f, m, f],
                         output_frame := Some (length (heap (world st)) + 2)\<rparr>,
                 background_subtract := bg',
                 calls := calls st @ [Capture_array, Apply]\<rparr>)"
  using assms by (simp add: body_defs nth_append)

text \<open>
  However an iteration ends, the lock is as it was found, the store has only grown, a
  filled slot is still filled, and the camera has not been stopped.
\<close>

lemma body_lock: "lock (world (thread_of (body tr st t))) = lock (world st)"
  by (simp add: body_defs split: sum.splits prod.splits)

lemma body_heap: "\<exists>ys. heap (world (thread_of (body tr st t))) = heap (world st) @ ys"
  by (simp add: body_defs split: sum.splits prod.splits)

lemma body_slot:
  "output_frame (world st) \<noteq> None \<Longrightarrow> output_frame (world (thread_of (body tr st t))) \<noteq> None"
  by (simp add: body_defs split: sum.splits prod.splits)

lemma body_stop: "Stop \<notin> set (calls st) \<Longrightarrow> Stop \<notin> set (calls (thread_of (body tr st t)))"
  by (simp add: body_defs split: sum.splits prod.splits)

lemma body_Continue_slot: "body tr st t = Continue st' \<Longrightarrow> output_frame (world st') \<noteq> None"
  by (auto simp add: body_defs split: sum.splits prod.splits if_splits)

lemma body_Continue_unlocked: "body tr st t = Continue st' \<Longrightarrow> \<not> lock (world st')"
  by (auto simp add: body_defs split: sum.splits prod.splits if_splits)

lemma body_slot_allocated:
  "slot_allocated (world st) \<Longrightarrow> slot_allocated (world (thread_of (body tr st t)))"
  by (auto simp add: body_defs slot_allocated_def split: sum.splits prod.splits option.splits)

text \<open>A completed iteration leaves the slot on an array that did not exist before it.\<close>

lemma body_publish_fresh:
  "body tr st t = Continue st' \<Longrightarrow>
   \<exists>c. output_frame (world st') = Some c \<and> length (heap (world st)) \<le> c"
  by (auto simp add: body_defs split: sum.splits prod.splits if_splits)

text \<open>
  An interrupt delivered at any of the five points of an iteration in which nothing else
  goes wrong leaves the body as \<^verbatim>\<open>KeyboardInterrupt\<close>.
\<close>

lemma interrupt_reaches_handler:
  assumes "interrupt t = Some p" and "captured t = Inr f"
    and "tr (background_subtract st) f = Inr (m, bg')" and "\<not> lock (world st)"
  shows "\<exists>st'. body tr st t = Throw KeyboardInterrupt st'"
  using assms by (cases p) (simp_all add: body_defs nth_append)

text \<open>
  Without an interrupt in the iteration, and with a camera and a transform that do not
  raise \<^verbatim>\<open>KeyboardInterrupt\<close>, the body is not left by \<^verbatim>\<open>KeyboardInterrupt\<close>.
\<close>

lemma body_in_thread:
  assumes "in_thread t" and "\<forall>bg f. tr bg f \<noteq> Inl KeyboardInterrupt"
  shows "body tr st t \<noteq> Throw KeyboardInterrupt st'"
  using assms
  by (auto simp add: body_defs in_thread_def split: sum.splits prod.splits if_splits)

lemma body_A:
  "body example_transform (after_setup initial_world 0) (frame_tick frame_A) = Continue thread_A"
  by (simp add: body_success [where f = frame_A and m = mask_0 and bg' = 1] example_defs
      thread_A_def world_A_def numeral_2_eq_2)

section \<open>Facts about the loop\<close>

text \<open>The loop on a non-empty list, by the outcome of the first iteration.\<close>

lemma loop_cases:
  "capture_loop tr st (t # ts) =
     (if (\<exists>x. body tr st t = Continue x)
      then capture_loop tr (thread_of (body tr st t)) ts
      else ((case body tr st t of
               Stuck _ \<Rightarrow> Blocked | Throw e _ \<Rightarrow> Raised e | _ \<Rightarrow> Running),
            thread_of (body tr st t)))"
  by (cases "body tr st t") simp_all

lemma loop_lock: "lock (world (snd (capture_loop tr st ts))) = lock (world st)"
  by (induction ts arbitrary: st)
     (simp_all add: loop_cases body_lock del: capture_loop.simps(2))

lemma loop_heap: "\<exists>ys. heap (world (snd (capture_loop tr st ts))) = heap (world st) @ ys"
proof (induction ts arbitrary: st)
  case Nil
  show ?case by simp
next
  case (Cons t ts)
  obtain ys where ys: "heap (world (thread_of (body tr st t))) = heap (world st) @ ys"
    using body_heap by blast
  obtain zs where zs:
    "heap (world (snd (capture_loop tr (thread_of (body tr st t)) ts))) =
       heap (world (thread_of (body tr st t))) @ zs"
    using Cons.IH by blast
  show ?case by (simp add: loop_cases ys zs del: capture_loop.simps(2))
qed

lemma loop_slot:
  "output_frame (world st) \<noteq> None \<Longrightarrow>
   output_frame (world (snd (capture_loop tr st ts))) \<noteq> None"
  by (induction ts arbitrary: st)
     (simp_all add: loop_cases body_slot del: capture_loop.simps(2) not_None_eq)

lemma loop_stop:
  "Stop \<notin> set (calls st) \<Longrightarrow> Stop \<notin> set (calls (snd (capture_loop tr st ts)))"
  by (induction ts arbitrary: st)
     (simp_all add: loop_cases body_stop del: capture_loop.simps(2))

lemma loop_slot_allocated:
  "slot_allocated (world st) \<Longrightarrow> slot_allocated (world (snd (capture_loop tr st ts)))"
  by (induction ts arbitrary: st)
     (simp_all add: loop_cases body_slot_allocated del: capture_loop.simps(2))

text \<open>Once the loop has been left, later ticks are not looked at.\<close>

lemma loop_append:
  "capture_loop tr st (xs @ ys) =
     (if fst (capture_loop tr st xs) = Running
      then capture_loop tr (snd (capture_loop tr st xs)) ys
      else capture_loop tr st xs)"
  by (induction xs arbitrary: st) (simp_all split: step.splits)

lemma loop_in_thread:
  assumes "list_all in_thread ticks" and "\<forall>bg f. tr bg f \<noteq> Inl KeyboardInterrupt"
  shows "fst (capture_loop tr st ticks) \<noteq> Raised KeyboardInterrupt"
  using assms(1)
proof (induction ticks arbitrary: st)
  case Nil
  show ?case by simp
next
  case (Cons t ts)
  have t: "in_thread t" and ts: "list_all in_thread ts"
    using Cons.prems by simp_all
  show ?case
  proof (cases "body tr st t")
    case (Continue st')
    then show ?thesis using Cons.IH [OF ts, of st'] by simp
  next
    case (Stuck st')
    then show ?thesis by simp
  next
    case (Throw e st')
    then have "e \<noteq> KeyboardInterrupt"
      using body_in_thread [OF t assms(2), of st st'] by auto
    with Throw show ?thesis by simp
  qed
qed

lemma interrupted_loop:
  "capture_loop example_transform (after_setup initial_world 0)
     [frame_tick frame_A, \<lparr>captured = Inr frame_B, interrupt = Some At_copy\<rparr>,
      frame_tick frame_B]
   = (Raised KeyboardInterrupt, interrupted_thread)"
  by (simp add: body_A)
     (simp add: body_defs example_defs thread_A_def world_A_def interrupted_thread_def)

section \<open>Facts about the thread function\<close>

lemma after_setup_no_stop: "Stop \<notin> set (calls (after_setup w bg0))"
  by (auto simp add: after_setup_def)

lemma video_processing_running:
  "video_processing tr bg0 None w ticks =
     (let r = capture_loop tr (after_setup w bg0) ticks
      in if fst r = Raised KeyboardInterrupt
         then (Raised KeyboardInterrupt, (snd r)\<lparr>calls := calls (snd r) @ [Stop]\<rparr>)
         else r)"
  by (simp add: video_processing_def Let_def split: prod.splits)

lemma undisturbed_run:
  "video_processing example_transform 0 None initial_world
     [frame_tick frame_A, frame_tick frame_B] = (Running, thread_AB)"
  by (simp add: video_processing_running body_A)
     (simp add: body_defs example_defs thread_A_def world_A_def thread_AB_def)

section \<open>Facts about sequences of iterations and queries\<close>

lemma step_lock: "lock (world (snd (system_step tr (s, st) x))) = lock (world st)"
  using loop_lock [of tr st "[case x of Iterate t \<Rightarrow> t]"]
  by (cases "(tr, (s, st), x)" rule: system_step.cases)
     (auto simp add: generate_image_def Let_def simp del: capture_loop.simps)

lemma step_heap:
  "\<not> lock (world st) \<Longrightarrow>
   \<exists>ys. heap (world (snd (system_step tr (s, st) x))) = heap (world st) @ ys"
  using loop_heap [of tr st "[case x of Iterate t \<Rightarrow> t]"]
  by (cases "(tr, (s, st), x)" rule: system_step.cases)
     (auto simp add: generate_image_unlocked simp del: capture_loop.simps)

lemma step_slot:
  "\<not> lock (world st) \<Longrightarrow> output_frame (world st) \<noteq> None \<Longrightarrow>
   output_frame (world (snd (system_step tr (s, st) x))) \<noteq> None"
  using loop_slot [of st tr "[case x of Iterate t \<Rightarrow> t]"]
  by (cases "(tr, (s, st), x)" rule: system_step.cases)
     (auto simp add: generate_image_unlocked simp del: capture_loop.simps)

lemma run_ops_Nil: "run_ops tr x [] = x"
  by (simp add: run_ops_def)

lemma run_ops_Cons: "run_ops tr x (a # ops) = run_ops tr (system_step tr x a) ops"
  by (simp add: run_ops_def)

lemma run_ops_lock: "lock (world (snd (run_ops tr (s, st) ops))) = lock (world st)"
proof (induction ops arbitrary: s st)
  case Nil
  show ?case by (simp add: run_ops_Nil)
next
  case (Cons a ops)
  obtain s1 st1 where e: "system_step tr (s, st) a = (s1, st1)"
    by (cases "system_step tr (s, st) a")
  have "lock (world st1) = lock (world st)"
    using step_lock [of tr s st a] by (simp add: e)
  then show ?case
    using Cons.IH [of s1 st1] by (simp add: run_ops_Cons e)
qed

lemma run_ops_heap:
  "\<not> lock (world st) \<Longrightarrow>
   \<exists>ys. heap (world (snd (run_ops tr (s, st) ops))) = heap (world st) @ ys"
proof (induction ops arbitrary: s st)
  case Nil
  show ?case by (simp add: run_ops_Nil)
next
  case (Cons a ops)
  obtain s1 st1 where e: "system_step tr (s, st) a = (s1, st1)"
    by (cases "system_step tr (s, st) a")
  have l: "\<not> lock (world st1)"
    using step_lock [of tr s st a] Cons.prems by (simp add: e)
  obtain ys where ys: "heap (world st1) = heap (world st) @ ys"
    using step_heap [OF Cons.prems, of tr s a] by (auto simp add: e)
  obtain zs where zs: "heap (world (snd (run_ops tr (s1, st1) ops))) = heap (world st1) @ zs"
    using Cons.IH [OF l] by blast
  show ?case by (simp add: run_ops_Cons e ys zs)
qed

lemma run_ops_slot:
  "\<not> lock (world st) \<Longrightarrow> output_frame (world st) \<noteq> None \<Longrightarrow>
   output_frame (world (snd (run_ops tr (s, st) ops))) \<noteq> None"
proof (induction ops arbitrary: s st)
  case Nil
  then show ?case by (simp add: run_ops_Nil)
next
  case (Cons a ops)
  obtain s1 st1 where e: "system_step tr (s, st) a = (s1, st1)"
    by (cases "system_step tr (s, st) a")
  have l: "\<not> lock (world st1)"
    using step_lock [of tr s st a] Cons.prems by (simp add: e)
  have n: "output_frame (world st1) \<noteq> None"
    using step_slot [OF Cons.prems, of tr s a] by (simp add: e)
  show ?case
    using Cons.IH [OF l n] by (simp add: run_ops_Cons e)
qed

lemma step_slot_allocated:
  "slot_allocated (world st) \<Longrightarrow> slot_allocated (world (snd (system_step tr (s, st) x)))"
  using loop_slot_allocated [of st tr "[case x of Iterate t \<Rightarrow> t]"]
  by (cases "(tr, (s, st), x)" rule: system_step.cases)
     (auto simp add: generate_image_def Let_def slot_allocated_def
        simp del: capture_loop.simps split: option.splits if_splits)

lemma run_ops_slot_allocated:
  "slot_allocated (world st) \<Longrightarrow> slot_allocated (world (snd (run_ops tr (s, st) ops)))"
proof (induction ops arbitrary: s st)
  case Nil
  then show ?case by (simp add: run_ops_Nil)
next
  case (Cons a ops)
  obtain s1 st1 where e: "system_step tr (s, st) a = (s1, st1)"
    by (cases "system_step tr (s, st) a")
  have "slot_allocated (world st1)"
    using step_slot_allocated [OF Cons.prems, of tr s a] by (simp add: e)
  then show ?case
    using Cons.IH [of st1 s1] by (simp add: run_ops_Cons e)
qed

section \<open>The published frame is the raw frame\<close>

text \<open>
  Claim C1. In an iteration that captures a frame \<open>f\<close> and is not disturbed, the
  transform is called on \<open>f\<close> (the call is in the log and the subtractor is the one it
  returned), and the iteration ends with \<^verbatim>\<open>output_frame\<close> referring to a new array
  whose content is \<open>f\<close>, the raw frame. The mask \<open>m\<close> is an array of its own in the
  store, at an address that the slot does not refer to: it is computed and dropped.
  The store grows by the captured frame, the mask and the copy, in this order.
\<close>

theorem raw_frame_published:
  assumes "captured t = Inr f" and "interrupt t = None"
    and "tr (background_subtract st) f = Inr (m, bg')" and "\<not> lock (world st)"
  shows "\<exists>st'. body tr st t = Continue st' \<and>
           calls st' = calls st @ [Capture_array, Apply] \<and>
           background_subtract st' = bg' \<and>
           heap (world st') = heap (world st) @ [f, m, f] \<and>
           output_frame (world st') = Some (length (heap (world st)) + 2) \<and>
           heap (world st') ! (length (heap (world st)) + 2) = f"
  using assms by (simp add: body_success nth_append)

theorem raw_frame_published_witness:
  "captured (frame_tick frame_A) = Inr frame_A \<and> interrupt (frame_tick frame_A) = None \<and>
   example_transform (background_subtract (after_setup initial_world 0)) frame_A
     = Inr (mask_0, 1) \<and>
   \<not> lock (world (after_setup initial_world 0)) \<and>
   (\<exists>st'. body example_transform (after_setup initial_world 0) (frame_tick frame_A)
            = Continue st' \<and>
      calls st' = calls (after_setup initial_world 0) @ [Capture_array, Apply] \<and>
      background_subtract st' = 1 \<and>
      heap (world st') = [frame_A, mask_0, frame_A] \<and>
      output_frame (world st') = Some 2 \<and>
      heap (world st') ! 2 = frame_A)"
  using raw_frame_published [of "frame_tick frame_A" frame_A example_transform
      "after_setup initial_world 0" mask_0 1]
  by (simp add: example_defs numeral_2_eq_2)

section \<open>Querying an empty slot\<close>

text \<open>
  Claim C3. While \<^verbatim>\<open>output_frame\<close> is \<^verbatim>\<open>None\<close> and the lock is free,
  \<^verbatim>\<open>generate_image\<close> returns (it does not wait), its result is \<^verbatim>\<open>None\<close>, no image,
  and it leaves the world exactly as it was: no array is created and the slot stays
  empty. As the world is unchanged, the same holds for every further call.
\<close>

theorem query_empty_slot:
  assumes "output_frame w = None" and "\<not> lock w"
  shows "generate_image w = Some (None, w)"
  using assms by (simp add: generate_image_unlocked)

theorem query_empty_slot_witness:
  "output_frame initial_world = None \<and> \<not> lock initial_world \<and>
   generate_image initial_world = Some (None, initial_world)"
  using query_empty_slot [of initial_world] by (simp add: initial_world_def)

section \<open>The latest frame wins\<close>

text \<open>
  Claim C4. Two undisturbed iterations in a row, on frames \<open>f1\<close> and then \<open>f2\<close>, with
  no query between them: the loop is still running, \<^verbatim>\<open>output_frame\<close> refers to one
  array and its content is \<open>f2\<close>, and the query that follows returns an image object on
  that array, so what the caller finds is \<open>f2\<close>. The slot is a single reference:
  nothing of \<open>f1\<close> is in what it refers to.
\<close>

theorem latest_wins:
  assumes "\<not> lock (world st)"
    and "tr (background_subtract st) f1 = Inr (m1, bg1)"
    and "tr bg1 f2 = Inr (m2, bg2)"
  shows "\<exists>st2 c. capture_loop tr st
             [\<lparr>captured = Inr f1, interrupt = None\<rparr>, \<lparr>captured = Inr f2, interrupt = None\<rparr>]
             = (Running, st2) \<and>
           output_frame (world st2) = Some c \<and> heap (world st2) ! c = f2 \<and>
           generate_image (world st2) = Some (Some (Gr_Image c ''Camera''), world st2) \<and>
           payload (world st2) (Gr_Image c ''Camera'') = f2"
  using assms by (simp add: body_success generate_image_unlocked payload_def nth_append)

theorem latest_wins_witness:
  "\<not> lock (world (after_setup initial_world 0)) \<and>
   example_transform (background_subtract (after_setup initial_world 0)) frame_A
     = Inr (mask_0, 1) \<and>
   example_transform 1 frame_B = Inr (mask_0, 2) \<and>
   (\<exists>st2 c. capture_loop example_transform (after_setup initial_world 0)
             [\<lparr>captured = Inr frame_A, interrupt = None\<rparr>,
              \<lparr>captured = Inr frame_B, interrupt = None\<rparr>]
             = (Running, st2) \<and>
           output_frame (world st2) = Some c \<and> heap (world st2) ! c = frame_B \<and>
           generate_image (world st2) = Some (Some (Gr_Image c ''Camera''), world st2) \<and>
           payload (world st2) (Gr_Image c ''Camera'') = frame_B)"
  using latest_wins [of "after_setup initial_world 0" example_transform frame_A mask_0 1
      frame_B mask_0 2]
  by (simp add: example_defs numeral_2_eq_2)

section \<open>The query is idempotent\<close>

text \<open>
  Claim C5. With the lock free, a call of \<^verbatim>\<open>generate_image\<close> returns, and a second
  call made in the world the first one leaves returns the same result: the same image
  object, or \<^verbatim>\<open>None\<close> both times, and the same bytes behind it. Neither call changes
  \<^verbatim>\<open>output_frame\<close> or any array of the store.
\<close>

theorem query_idempotent:
  assumes "\<not> lock w"
  shows "\<exists>r w1 w2. generate_image w = Some (r, w1) \<and> generate_image w1 = Some (r, w2) \<and>
           map_option (payload w1) r = map_option (payload w2) r \<and>
           output_frame w1 = output_frame w \<and> heap w1 = heap w \<and>
           output_frame w2 = output_frame w \<and> heap w2 = heap w"
  using assms by (simp add: generate_image_unlocked)

theorem query_idempotent_witness:
  "\<not> lock world_A \<and>
   (\<exists>r w1 w2. generate_image world_A = Some (r, w1) \<and> generate_image w1 = Some (r, w2) \<and>
           map_option (payload w1) r = map_option (payload w2) r \<and>
           output_frame w1 = output_frame world_A \<and> heap w1 = heap world_A \<and>
           output_frame w2 = output_frame world_A \<and> heap w2 = heap world_A) \<and>
   generate_image world_A = Some (Some (Gr_Image 2 ''Camera''), world_A) \<and>
   payload world_A (Gr_Image 2 ''Camera'') = frame_A"
  using query_idempotent [of world_A]
  by (simp add: world_A_def generate_image_unlocked payload_def)

section \<open>A filled slot stays filled\<close>

text \<open>
  Claim C10. An iteration that reaches its end has stored a reference in
  \<^verbatim>\<open>output_frame\<close>. From there on, after any sequence of iterations (with any ticks:
  failing captures, failing transforms, interrupts) and queries, \<^verbatim>\<open>output_frame\<close> is
  still not \<^verbatim>\<open>None\<close>, and \<^verbatim>\<open>generate_image\<close> returns an image object, never
  \<^verbatim>\<open>None\<close>. No statement of the program assigns \<^verbatim>\<open>None\<close> to \<^verbatim>\<open>output_frame\<close>
  after its initialisation.
\<close>

theorem slot_never_empty_again:
  assumes "body tr st0 t = Continue st"
  shows "output_frame (world st) \<noteq> None \<and>
         (\<exists>s' st' img. run_ops tr (s, st) ops = (s', st') \<and>
            output_frame (world st') \<noteq> None \<and>
            generate_image (world st') = Some (Some img, world st'))"
proof -
  have l: "\<not> lock (world st)" using assms by (rule body_Continue_unlocked)
  have n: "output_frame (world st) \<noteq> None" using assms by (rule body_Continue_slot)
  obtain s' st' where e: "run_ops tr (s, st) ops = (s', st')"
    by (cases "run_ops tr (s, st) ops")
  have l': "\<not> lock (world st')"
    using run_ops_lock [of tr s st ops] l by (simp add: e)
  have "output_frame (world st') \<noteq> None"
    using run_ops_slot [OF l n, of tr s ops] by (simp add: e)
  then obtain c where c: "output_frame (world st') = Some c" by blast
  have "generate_image (world st') = Some (Some (Gr_Image c ''Camera''), world st')"
    using l' c by (simp add: generate_image_unlocked)
  with n e c show ?thesis by simp
qed

theorem slot_never_empty_again_witness:
  "body example_transform (after_setup initial_world 0) (frame_tick frame_A)
     = Continue thread_A \<and>
   output_frame (world thread_A) \<noteq> None \<and>
   (\<exists>s' st' img. run_ops example_transform (Running, thread_A)
        [Query, Iterate \<lparr>captured = Inl (Error ''OSError''), interrupt = None\<rparr>,
         Iterate (frame_tick frame_B), Query] = (s', st') \<and>
      output_frame (world st') \<noteq> None \<and>
      generate_image (world st') = Some (Some img, world st'))"
  using slot_never_empty_again [OF body_A, of Running
      "[Query, Iterate \<lparr>captured = Inl (Error ''OSError''), interrupt = None\<rparr>,
        Iterate (frame_tick frame_B), Query]"]
  by (simp add: body_A)

section \<open>The start-up gate\<close>

text \<open>
  Claim C2. The main block launches the web interface only when the thread is alive at
  the check, and then it has started the thread and slept one second before: its
  actions are exactly start, sleep, print, launch, in this order. When the thread is
  not alive at the check the actions are start, sleep and the print of
  \<^verbatim>\<open>Unable to do video processing!\<close>, with no launch. A setup call that has raised
  (the camera could not be opened, configured or started) has ended the thread, so the
  check fails.
\<close>

theorem startup_gating:
  "(Launch h \<in> set (main tr bg0 setup ticks) \<longrightarrow>
      is_alive (fst (video_processing tr bg0 setup initial_world ticks)) \<and>
      main tr bg0 setup ticks =
        [Thread_start, Sleep 1, Print ''Starting web API (may take a while).'',
         Launch ''0.0.0.0'']) \<and>
   (\<not> is_alive (fst (video_processing tr bg0 setup initial_world ticks)) \<longrightarrow>
      main tr bg0 setup ticks =
        [Thread_start, Sleep 1, Print ''Unable to do video processing!'']) \<and>
   (setup = Some (k, e) \<longrightarrow>
      \<not> is_alive (fst (video_processing tr bg0 setup initial_world ticks)))"
  by (auto simp add: main_def Let_def video_processing_def)

theorem startup_gating_witness:
  "Launch ''0.0.0.0'' \<in> set (main example_transform 0 None [frame_tick frame_A]) \<and>
   is_alive (fst (video_processing example_transform 0 None initial_world
       [frame_tick frame_A])) \<and>
   main example_transform 0 None [frame_tick frame_A] =
     [Thread_start, Sleep 1, Print ''Starting web API (may take a while).'',
      Launch ''0.0.0.0''] \<and>
   \<not> is_alive (fst (video_processing example_transform 0
         (Some (Picamera2, Error ''RuntimeError'')) initial_world [])) \<and>
   main example_transform 0 (Some (Picamera2, Error ''RuntimeError'')) [] =
     [Thread_start, Sleep 1, Print ''Unable to do video processing!'']"
  using startup_gating [of "''0.0.0.0''" example_transform 0 None "[frame_tick frame_A]"]
    startup_gating [of "''0.0.0.0''" example_transform 0
      "Some (Picamera2, Error ''RuntimeError'')" "[]" Picamera2 "Error ''RuntimeError''"]
  by (simp add: main_def video_processing_running body_A Let_def)

section \<open>An error in an iteration\<close>

text \<open>
  Claim C6, as the specification states it: an iteration whose capture or transform
  fails is skipped and the loop goes on. It is not so. In the run below the second
  \<^verbatim>\<open>capture_array()\<close> raises an exception that is not \<^verbatim>\<open>KeyboardInterrupt\<close>: the
  thread function ends with that exception, the thread is no longer alive, the third
  tick with \<open>frame_B\<close> is never captured, and \<^verbatim>\<open>camera.stop()\<close> is not called. The
  same happens when the transform raises on the second frame. In both runs the slot
  still refers to array 2, the copy of \<open>frame_A\<close>.
\<close>

theorem error_skipped_counterexample:
  "video_processing example_transform 0 None initial_world
     [frame_tick frame_A, \<lparr>captured = Inl (Error ''CaptureError''), interrupt = None\<rparr>,
      frame_tick frame_B]
     = (Raised (Error ''CaptureError''), thread_A\<lparr>calls := calls thread_A @ [Capture_array]\<rparr>) \<and>
   \<not> is_alive (Raised (Error ''CaptureError'')) \<and>
   video_processing example_transform 0 None initial_world
     [frame_tick frame_A, frame_tick \<lparr>shape = [0], data = []\<rparr>, frame_tick frame_B]
     = (Raised (Error ''cv2.error''),
        thread_A\<lparr>world := world_A\<lparr>heap := heap world_A @ [\<lparr>shape = [0], data = []\<rparr>]\<rparr>,
                 calls := calls thread_A @ [Capture_array, Apply]\<rparr>) \<and>
   heap world_A ! 2 = frame_A \<and> output_frame world_A = Some 2 \<and> frame_B \<noteq> frame_A"
  by (simp add: video_processing_running body_A)
     (simp add: body_defs example_defs thread_A_def world_A_def)

text \<open>
  Claim C6, amended. When, after any number of completed iterations, \<^verbatim>\<open>capture_array\<close>
  or the transform raises an exception other than \<^verbatim>\<open>KeyboardInterrupt\<close>, the
  exception leaves \<^verbatim>\<open>video_processing\<close>: the thread ends with it, whatever ticks
  would follow; \<^verbatim>\<open>camera.stop()\<close> has not been called; and the frame published before
  is still there: \<^verbatim>\<open>output_frame\<close> is unchanged and so is every array that existed.
\<close>

theorem error_ends_loop:
  assumes "capture_loop tr (after_setup w bg0) pre = (Running, st)"
    and "interrupt t = None"
    and "captured t = Inl (Error x) \<or>
         (\<exists>f. captured t = Inr f \<and> tr (background_subtract st) f = Inl (Error x))"
  shows "\<exists>st'. video_processing tr bg0 None w (pre @ t # post) = (Raised (Error x), st') \<and>
           Stop \<notin> set (calls st') \<and>
           output_frame (world st') = output_frame (world st) \<and>
           take (length (heap (world st))) (heap (world st')) = heap (world st)"
proof -
  have "Stop \<notin> set (calls (snd (capture_loop tr (after_setup w bg0) pre)))"
    using after_setup_no_stop by (rule loop_stop)
  then have ns: "Stop \<notin> set (calls st)" by (simp add: assms(1))
  obtain st' where b: "body tr st t = Throw (Error x) st'"
    and p: "Stop \<notin> set (calls st') \<and> output_frame (world st') = output_frame (world st) \<and>
            take (length (heap (world st))) (heap (world st')) = heap (world st)"
    using assms(2,3) ns by (auto simp add: body_defs)
  have "capture_loop tr (after_setup w bg0) (pre @ t # post) = (Raised (Error x), st')"
    by (simp add: loop_append assms(1) b)
  then have "video_processing tr bg0 None w (pre @ t # post) = (Raised (Error x), st')"
    by (simp add: video_processing_running)
  with p show ?thesis by simp
qed

theorem error_ends_loop_witness:
  "capture_loop example_transform (after_setup initial_world 0) [frame_tick frame_A]
     = (Running, thread_A) \<and>
   interrupt \<lparr>captured = Inl (Error ''CaptureError''), interrupt = None\<rparr> = None \<and>
   captured \<lparr>captured = Inl (Error ''CaptureError''), interrupt = None\<rparr>
     = Inl (Error ''CaptureError'') \<and>
   (\<exists>st'. video_processing example_transform 0 None initial_world
       ([frame_tick frame_A] @
        \<lparr>captured = Inl (Error ''CaptureError''), interrupt = None\<rparr> # [frame_tick frame_B])
       = (Raised (Error ''CaptureError''), st') \<and>
      Stop \<notin> set (calls st') \<and> output_frame (world st') = Some 2 \<and>
      take (length (heap (world thread_A))) (heap (world st')) = [frame_A, mask_0, frame_A])"
proof -
  have r: "capture_loop example_transform (after_setup initial_world 0) [frame_tick frame_A]
      = (Running, thread_A)"
    by (simp add: body_A)
  show ?thesis
    using error_ends_loop [OF r,
        of "\<lparr>captured = Inl (Error ''CaptureError''), interrupt = None\<rparr>"
        "''CaptureError''" "[frame_tick frame_B]"] r
    by (simp add: thread_A_def world_A_def del: capture_loop.simps)
qed

section \<open>An interrupt while the loop runs\<close>

text \<open>
  Claim C7 says that an interrupt signal arriving while the loop runs makes the loop
  call the camera's stop exactly once and then end. The program does not do that. The
  loop runs in the thread that the main block starts, and the \<^verbatim>\<open>KeyboardInterrupt\<close>
  of the signal is raised in the main thread: the ticks of the loop are \<open>in_thread\<close>.
  Then, whatever frames are captured and whatever other errors occur, the thread
  function does not end with \<^verbatim>\<open>KeyboardInterrupt\<close> and \<open>Stop\<close> is not in its log:
  \<^verbatim>\<open>camera.stop()\<close> is called zero times. In the run on \<open>frame_A\<close> and \<open>frame_B\<close>
  the loop is still running and the thread is alive. The handler of the loop (its
  comment is \<^verbatim>\<open># Tidy up\<close>) is written for this signal and is not entered by it.
\<close>

theorem sigint_never_stops_camera:
  assumes "list_all in_thread ticks" and "\<forall>bg f. tr bg f \<noteq> Inl KeyboardInterrupt"
  shows "fst (video_processing tr bg0 None w ticks) \<noteq> Raised KeyboardInterrupt \<and>
         Stop \<notin> set (calls (snd (video_processing tr bg0 None w ticks))) \<and>
         count_list (calls (snd (video_processing tr bg0 None w ticks))) Stop = 0"
proof -
  have n: "fst (capture_loop tr (after_setup w bg0) ticks) \<noteq> Raised KeyboardInterrupt"
    using assms by (rule loop_in_thread)
  then have v:
    "video_processing tr bg0 None w ticks = capture_loop tr (after_setup w bg0) ticks"
    by (simp add: video_processing_running)
  have "Stop \<notin> set (calls (snd (capture_loop tr (after_setup w bg0) ticks)))"
    using after_setup_no_stop by (rule loop_stop)
  with n show ?thesis by (simp add: v)
qed

theorem sigint_never_stops_camera_witness:
  "list_all in_thread [frame_tick frame_A, frame_tick frame_B] \<and>
   (\<forall>bg f. example_transform bg f \<noteq> Inl KeyboardInterrupt) \<and>
   video_processing example_transform 0 None initial_world
     [frame_tick frame_A, frame_tick frame_B] = (Running, thread_AB) \<and>
   is_alive (fst (video_processing example_transform 0 None initial_world
     [frame_tick frame_A, frame_tick frame_B])) \<and>
   count_list (calls (snd (video_processing example_transform 0 None initial_world
     [frame_tick frame_A, frame_tick frame_B]))) Stop = 0"
proof -
  have a: "list_all in_thread [frame_tick frame_A, frame_tick frame_B]"
    by (simp add: in_thread_def frame_tick_def)
  have b: "\<forall>bg f. example_transform bg f \<noteq> Inl KeyboardInterrupt"
    by (simp add: example_transform_def)
  show ?thesis
    using sigint_never_stops_camera [OF a b, of 0 initial_world] a b
    by (simp add: undisturbed_run)
qed

text \<open>
  The handler taken alone. Were \<^verbatim>\<open>KeyboardInterrupt\<close> raised inside the thread,
  wherever in an iteration, the handler would call \<^verbatim>\<open>camera.stop()\<close> as the last
  call of the thread and the only \<open>Stop\<close> in its log, and the thread function would
  end with \<^verbatim>\<open>KeyboardInterrupt\<close>, ticks that would follow changing nothing.
\<close>

lemma handler_stops_camera_once:
  assumes "capture_loop tr (after_setup w bg0) ticks = (Raised KeyboardInterrupt, st)"
  shows "video_processing tr bg0 None w ticks
           = (Raised KeyboardInterrupt, st\<lparr>calls := calls st @ [Stop]\<rparr>) \<and>
         count_list (calls st @ [Stop]) Stop = 1 \<and>
         video_processing tr bg0 None w (ticks @ later) = video_processing tr bg0 None w ticks"
proof -
  have "Stop \<notin> set (calls (snd (capture_loop tr (after_setup w bg0) ticks)))"
    using after_setup_no_stop by (rule loop_stop)
  then have "Stop \<notin> set (calls st)" by (simp add: assms)
  then have c: "count_list (calls st @ [Stop]) Stop = 1" by simp
  have v: "video_processing tr bg0 None w ticks
           = (Raised KeyboardInterrupt, st\<lparr>calls := calls st @ [Stop]\<rparr>)"
    by (simp add: video_processing_running assms)
  have "capture_loop tr (after_setup w bg0) (ticks @ later)
          = capture_loop tr (after_setup w bg0) ticks"
    by (simp add: loop_append assms)
  then have "video_processing tr bg0 None w (ticks @ later)
          = video_processing tr bg0 None w ticks"
    by (simp add: video_processing_running)
  with c v show ?thesis by simp
qed

lemma handler_stops_camera_once_example:
  "capture_loop example_transform (after_setup initial_world 0)
     [frame_tick frame_A, \<lparr>captured = Inr frame_B, interrupt = Some At_copy\<rparr>,
      frame_tick frame_B]
     = (Raised KeyboardInterrupt, interrupted_thread) \<and>
   video_processing example_transform 0 None initial_world
     [frame_tick frame_A, \<lparr>captured = Inr frame_B, interrupt = Some At_copy\<rparr>,
      frame_tick frame_B]
     = (Raised KeyboardInterrupt,
        interrupted_thread\<lparr>calls := calls interrupted_thread @ [Stop]\<rparr>) \<and>
   count_list (calls interrupted_thread @ [Stop]) Stop = 1"
  using handler_stops_camera_once [OF interrupted_loop, of "[frame_tick frame_A]"]
  by (simp add: interrupted_loop del: capture_loop.simps)

section \<open>A frame handed to a caller is not touched again\<close>

text \<open>
  Claim C8. Take any state the program reaches from its start by iterations and
  queries, and a query in it that returns an image object. The object refers to the
  array in the slot. Whatever iterations and queries follow, the content of that array
  is what it was when it was handed out, as is the content of every array that existed
  then: each iteration puts its copy of the frame into a new array and moves
  \<^verbatim>\<open>output_frame\<close> to it (\<open>body_publish_fresh\<close>); no statement writes into an existing
  array.
\<close>

theorem handed_out_frame_untouched:
  assumes "run_ops tr (Running, after_setup initial_world bg0) before = (s, st)"
    and "generate_image (world st) = Some (Some img, w1)"
  shows "w1 = world st \<and> output_frame (world st) = Some (image_value img) \<and>
         payload (world (snd (run_ops tr (s, st) after))) img = payload (world st) img \<and>
         take (length (heap (world st))) (heap (world (snd (run_ops tr (s, st) after))))
           = heap (world st)"
proof -
  have "slot_allocated (world (after_setup initial_world bg0))"
    by (simp add: slot_allocated_def after_setup_def initial_world_def)
  then have
    "slot_allocated (world (snd (run_ops tr (Running, after_setup initial_world bg0) before)))"
    by (rule run_ops_slot_allocated)
  then have sa: "slot_allocated (world st)" by (simp add: assms(1))
  have l: "\<not> lock (world st)"
    using assms(2) by (auto simp add: generate_image_def split: if_splits)
  have g: "w1 = world st \<and> output_frame (world st) = Some (image_value img)"
    using assms(2) l by (auto simp add: generate_image_unlocked)
  then have a: "image_value img < length (heap (world st))"
    using sa by (simp add: slot_allocated_def)
  obtain ys where ys: "heap (world (snd (run_ops tr (s, st) after))) = heap (world st) @ ys"
    using run_ops_heap [OF l] by blast
  show ?thesis using g a by (simp add: ys payload_def nth_append)
qed

theorem handed_out_frame_untouched_witness:
  "run_ops example_transform (Running, after_setup initial_world 0)
     [Iterate (frame_tick frame_A)] = (Running, thread_A) \<and>
   generate_image (world thread_A) = Some (Some (Gr_Image 2 ''Camera''), world_A) \<and>
   payload (world (snd (run_ops example_transform (Running, thread_A)
       [Iterate (frame_tick frame_B), Query, Iterate (frame_tick frame_B)])))
     (Gr_Image 2 ''Camera'') = frame_A \<and>
   output_frame (world (snd (run_ops example_transform (Running, thread_A)
       [Iterate (frame_tick frame_B), Query, Iterate (frame_tick frame_B)]))) = Some 8"
proof -
  have r: "run_ops example_transform (Running, after_setup initial_world 0)
      [Iterate (frame_tick frame_A)] = (Running, thread_A)"
    by (simp add: run_ops_def body_A)
  have g: "generate_image (world thread_A) = Some (Some (Gr_Image 2 ''Camera''), world_A)"
    by (simp add: thread_A_def world_A_def generate_image_unlocked)
  have o: "output_frame (world (snd (run_ops example_transform (Running, thread_A)
       [Iterate (frame_tick frame_B), Query, Iterate (frame_tick frame_B)]))) = Some 8"
    by (simp add: run_ops_def body_defs generate_image_def example_defs thread_A_def
        world_A_def)
  have p: "payload (world thread_A) (Gr_Image 2 ''Camera'') = frame_A"
    by (simp add: thread_A_def world_A_def payload_def)
  show ?thesis
    using handed_out_frame_untouched [OF r g,
        of "[Iterate (frame_tick frame_B), Query, Iterate (frame_tick frame_B)]"] r g o p
    by simp
qed

end
